theory Spec2Isabelle
  imports Main
begin

section \<open>The prompt formatter of the LLaMA-2 chat notebook\<close>

text \<open>
  The development embeds the one function of the notebook
  \<^verbatim>\<open>chat_with_llama2_nousresearch_huggingface_v1.ipynb\<close> that carries logic of its own,
  \<^verbatim>\<open>convert_list_of_message_lists_to_input_prompt\<close>, together with the constants and the
  \<^verbatim>\<open>Message\<close> type it uses.
\<close>

subsection \<open>Data model\<close>

text \<open>
  \<^verbatim>\<open>Role = Literal["system", "user", "assistant"]\<close> and
  \<^verbatim>\<open>class Message(TypedDict): role: Role; content: str\<close>.
  A Python \<^verbatim>\<open>str\<close> is a sequence of code points; here a character is a code point
  below 256.
\<close>

datatype role = System | User | Assistant

record message =
  role :: role
  content :: string

type_synonym message_list = "message list"

text \<open>The text of a role, as the f-string of the second \<^verbatim>\<open>raise\<close> prints it.\<close>

fun role_str :: "role \<Rightarrow> string" where
  "role_str System = ''system''"
| "role_str User = ''user''"
| "role_str Assistant = ''assistant''"

text \<open>
  \<^verbatim>\<open>BEGIN_INST, END_INST = "[INST] ", " [/INST] "\<close> and
  \<^verbatim>\<open>BEGIN_SYS, END_SYS = "<<SYS>>\n", "\n<</SYS>>\n\n"\<close>.
\<close>

definition BEGIN_INST :: string where
  "BEGIN_INST = ''[INST] ''"

definition END_INST :: string where
  "END_INST = '' [/INST] ''"

definition BEGIN_SYS :: string where
  "BEGIN_SYS = ''<<SYS>>\<newline>''"

definition END_SYS :: string where
  "END_SYS = ''\<newline><</SYS>>\<newline>\<newline>''"

subsection \<open>Errors\<close>

text \<open>
  The function raises \<^verbatim>\<open>ValueError\<close> at two places, each with its own message, and
  its unguarded subscripts raise \<^verbatim>\<open>IndexError\<close>.
\<close>

datatype error = IndexError | ValueError string

text \<open>
  The message of the first \<^verbatim>\<open>raise\<close> (role ordering); the apostrophe is
  \<^verbatim>\<open>0x27\<close> and the line break \<^verbatim>\<open>0x0A\<close>.
\<close>

definition order_msg :: string where
  "order_msg =
     ''Format must be in this order: '' @ [CHR 0x27] @ ''system'' @ [CHR 0x27] @ '', ''
     @ [CHR 0x27] @ ''user'' @ [CHR 0x27] @ '', '' @ [CHR 0x27] @ ''assistant'' @ [CHR 0x27]
     @ '' roles.'' @ [CHR 0x0A]
     @ ''After that, you can alternate between user and assistant multiple times''"

text \<open>The message of the second \<^verbatim>\<open>raise\<close> (last message not from the user).\<close>

definition last_msg :: "role \<Rightarrow> string" where
  "last_msg r =
     ''Last message must be from user role. Instead, you sent from '' @ role_str r @ '' role''"

subsection \<open>Python's \<^verbatim>\<open>str.strip()\<close> and slices\<close>

text \<open>
  \<^verbatim>\<open>str.isspace\<close> on the code points below 256: TAB to CR, the separators
  \<^verbatim>\<open>0x1C\<close> to \<^verbatim>\<open>0x1F\<close>, the space, NEL (\<^verbatim>\<open>0x85\<close>) and the no-break space
  (\<^verbatim>\<open>0xA0\<close>).
\<close>

definition isspace :: "char \<Rightarrow> bool" where
  "isspace c =
     (let n = (of_char c :: nat)
      in (9 \<le> n \<and> n \<le> 13) \<or> (28 \<le> n \<and> n \<le> 32) \<or> n = 133 \<or> n = 160)"

text \<open>\<^verbatim>\<open>s.strip()\<close>: the whitespace at both ends is dropped.\<close>

definition strip :: "string \<Rightarrow> string" where
  "strip s = rev (dropWhile isspace (rev (dropWhile isspace s)))"

text \<open>The slice \<^verbatim>\<open>xs[::2]\<close>; the slice \<^verbatim>\<open>xs[1::2]\<close> is \<open>every_other (drop 1 xs)\<close>.\<close>

fun every_other :: "'a list \<Rightarrow> 'a list" where
  "every_other [] = []"
| "every_other [x] = [x]"
| "every_other (x # y # xs) = x # every_other xs"

subsection \<open>The formatter\<close>

text \<open>
  The first statement of the loop body: a leading system message is merged into the
  message after it. \<^verbatim>\<open>message_list[0]\<close> raises on an empty list and
  \<^verbatim>\<open>message_list[1]\<close> on a list of one message. The assignment binds the local name
  \<^verbatim>\<open>message_list\<close> to a new list.
\<close>

definition merge_system :: "message_list \<Rightarrow> error + message_list" where
  "merge_system ml =
     (case ml of
        [] \<Rightarrow> Inl IndexError
      | m0 # rest \<Rightarrow>
          if role m0 = System then
            (case rest of
               [] \<Rightarrow> Inl IndexError
             | m1 # _ \<Rightarrow>
                 Inr (\<lparr>role = role m1,
                        content = concat [BEGIN_SYS, content m0, END_SYS, content m1]\<rparr>
                      # drop 2 ml))
          else Inr ml)"

text \<open>The condition of the first \<^verbatim>\<open>if not (all(...) and all(...))\<close>.\<close>

definition roles_alternate :: "message_list \<Rightarrow> bool" where
  "roles_alternate ml \<longleftrightarrow>
     list_all (\<lambda>msg. role msg = User) (every_other ml)
     \<and> list_all (\<lambda>msg. role msg = Assistant) (every_other (drop 1 ml))"

text \<open>
  The rest of the loop body, on the list the name \<^verbatim>\<open>message_list\<close> is bound to after
  the merge. \<open>bos\<close> and \<open>eos\<close> are \<^verbatim>\<open>tokenizer.bos_token\<close> and
  \<^verbatim>\<open>tokenizer.eos_token\<close>, taken as strings.
\<close>

definition format_merged :: "string \<Rightarrow> string \<Rightarrow> message_list \<Rightarrow> error + string" where
  "format_merged bos eos ml =
     (if \<not> roles_alternate ml then Inl (ValueError order_msg)
      else
        let input_prompt =
              concat (map (\<lambda>(prompt, answer).
                             concat [bos, BEGIN_INST, strip (content prompt), END_INST,
                                     strip (content answer), eos])
                          (zip (every_other ml) (every_other (drop 1 ml))))
        in if ml = [] then Inl IndexError
           else if role (last ml) \<noteq> User then Inl (ValueError (last_msg (role (last ml))))
           else Inr (input_prompt
                     @ concat [bos, BEGIN_INST, strip (content (last ml)), END_INST]))"

text \<open>One pass of the loop body: the prompt of one message list, or the exception.\<close>

definition format_message_list :: "string \<Rightarrow> string \<Rightarrow> message_list \<Rightarrow> error + string" where
  "format_message_list bos eos ml =
     (case merge_system ml of
        Inl e \<Rightarrow> Inl e
      | Inr ml' \<Rightarrow> format_merged bos eos ml')"

text \<open>
  The \<^verbatim>\<open>for\<close> loop: \<open>input_prompts\<close> is the list built so far; an exception leaves the
  loop and the function at once.
\<close>

fun convert_loop ::
  "string \<Rightarrow> string \<Rightarrow> message_list list \<Rightarrow> string list \<Rightarrow> error + string list" where
  "convert_loop bos eos [] input_prompts = Inr input_prompts"
| "convert_loop bos eos (message_list # rest) input_prompts =
     (case format_message_list bos eos message_list of
        Inl e \<Rightarrow> Inl e
      | Inr input_prompt \<Rightarrow> convert_loop bos eos rest (input_prompts @ [input_prompt]))"

text \<open>
  The function. Before the loop it prints \<^verbatim>\<open>type(list_of_message_lists[0])\<close>, and the
  subscript raises on an empty list. What is printed is not modelled.
\<close>

definition convert_list_of_message_lists_to_input_prompt ::
  "message_list list \<Rightarrow> string \<Rightarrow> string \<Rightarrow> error + string list" where
  "convert_list_of_message_lists_to_input_prompt list_of_message_lists bos eos =
     (if list_of_message_lists = [] then Inl IndexError
      else convert_loop bos eos list_of_message_lists [])"

subsection \<open>Example inputs and counting markers\<close>

text \<open>The conversation \<open>[system: "S", user: "U1", assistant: "A1", user: "U2"]\<close>.\<close>

definition example_conversation :: message_list where
  "example_conversation =
     [\<lparr>role = System, content = ''S''\<rparr>, \<lparr>role = User, content = ''U1''\<rparr>,
      \<lparr>role = Assistant, content = ''A1''\<rparr>, \<lparr>role = User, content = ''U2''\<rparr>]"

text \<open>The number of positions of a text at which a marker starts.\<close>

fun occurrences :: "string \<Rightarrow> string \<Rightarrow> nat" where
  "occurrences marker [] = 0"
| "occurrences marker (c # cs) =
     (if take (length marker) (c # cs) = marker then 1 else 0) + occurrences marker cs"

text \<open>A conversation the formatter accepts and one it rejects.\<close>

definition good_conversation :: message_list where
  "good_conversation = [\<lparr>role = User, content = ''Hi''\<rparr>]"

definition bad_conversation :: message_list where
  "bad_conversation = [\<lparr>role = Assistant, content = ''Hello''\<rparr>]"

text \<open>A system turn and a user turn whose contents carry whitespace at both ends.\<close>

definition padded_conversation :: message_list where
  "padded_conversation =
     [\<lparr>role = System, content = '' S ''\<rparr>, \<lparr>role = User, content = '' U ''\<rparr>]"

text \<open>
  A well-formed conversation with whitespace at the ends of every content and inside
  two of them; the assistant turn starts with a TAB and the first user turn ends with a
  line break.
\<close>

definition whitespace_conversation :: message_list where
  "whitespace_conversation =
     [\<lparr>role = System, content = '' Be brief. ''\<rparr>,
      \<lparr>role = User, content = ''  Hi there\<newline>''\<rparr>,
      \<lparr>role = Assistant, content = CHR 0x09 # ''Hello  you ''\<rparr>,
      \<lparr>role = User, content = '' Bye  ''\<rparr>]"

subsection \<open>Well-formed conversations and the prompt the specification describes\<close>

text \<open>
  Turns that alternate user, assistant, user, ... and end on a user turn.
\<close>

fun user_assistant_turns :: "message_list \<Rightarrow> bool" where
  "user_assistant_turns [] = False"
| "user_assistant_turns [u] = (role u = User)"
| "user_assistant_turns (u # a # rest) =
     (role u = User \<and> role a = Assistant \<and> user_assistant_turns rest)"

text \<open>
  A well-formed conversation: an optional single leading system turn, then alternating
  user and assistant turns ending on a user turn.
\<close>

definition well_formed :: "message_list \<Rightarrow> bool" where
  "well_formed ml =
     (case ml of
        [] \<Rightarrow> False
      | m # rest \<Rightarrow> if role m = System then user_assistant_turns rest
                   else user_assistant_turns ml)"

text \<open>
  The turns after step 1 of the contract: a leading system turn and the turn after it
  are replaced by the merged turn.
\<close>

fun merged_turns :: "message_list \<Rightarrow> message_list" where
  "merged_turns (s # u # rest) =
     (if role s = System
      then \<lparr>role = role u, content = BEGIN_SYS @ content s @ END_SYS @ content u\<rparr> # rest
      else s # u # rest)"
| "merged_turns ml = ml"

text \<open>
  The prompt of steps 4 to 6 of the contract: one segment per (user, assistant) pair
  and a final segment, without sequence-end marker, for the trailing user turn.
\<close>

fun spec_prompt :: "string \<Rightarrow> string \<Rightarrow> message_list \<Rightarrow> string" where
  "spec_prompt bos eos (u # a # rest) =
     bos @ BEGIN_INST @ strip (content u) @ END_INST @ strip (content a) @ eos
     @ spec_prompt bos eos rest"
| "spec_prompt bos eos [u] = bos @ BEGIN_INST @ strip (content u) @ END_INST"
| "spec_prompt bos eos [] = []"

subsection \<open>The formatter on a store of objects\<close>

text \<open>
  Python lists and dicts are objects that a callee can change in place. To say what the
  function does to its argument, the same code is read once more over a store: a list
  object holds references, a dict object of type \<^verbatim>\<open>Message\<close> holds its role and its
  content (strings are values, they cannot change), and \<open>next_addr\<close> is the first
  address not yet in use.
\<close>

type_synonym addr = nat

record heap =
  list_obj :: "addr \<Rightarrow> addr list"
  dict_obj :: "addr \<Rightarrow> message"
  next_addr :: addr

text \<open>A dict display and a list display, a slice or a \<^verbatim>\<open>+\<close> create a new object.\<close>

definition new_dict :: "heap \<Rightarrow> message \<Rightarrow> addr \<times> heap" where
  "new_dict h m =
     (next_addr h, h\<lparr>dict_obj := (dict_obj h)(next_addr h := m), next_addr := Suc (next_addr h)\<rparr>)"

definition new_list :: "heap \<Rightarrow> addr list \<Rightarrow> addr \<times> heap" where
  "new_list h xs =
     (next_addr h, h\<lparr>list_obj := (list_obj h)(next_addr h := xs), next_addr := Suc (next_addr h)\<rparr>)"

text \<open>
  The merge statement, in the order Python evaluates it: the subscripts read the store;
  the dict display, the list display around it, the slice \<^verbatim>\<open>message_list[2:]\<close> and the
  concatenation each create an object; the local name is then bound to the last one.
\<close>

definition heap_merge_system :: "heap \<Rightarrow> addr \<Rightarrow> (error + addr) \<times> heap" where
  "heap_merge_system h message_list =
     (case list_obj h message_list of
        [] \<Rightarrow> (Inl IndexError, h)
      | d0 # rest \<Rightarrow>
          if role (dict_obj h d0) = System then
            (case rest of
               [] \<Rightarrow> (Inl IndexError, h)
             | d1 # _ \<Rightarrow>
                 let merged = concat [BEGIN_SYS, content (dict_obj h d0), END_SYS,
                                      content (dict_obj h d1)];
                     (d, h1) = new_dict h \<lparr>role = role (dict_obj h d1), content = merged\<rparr>;
                     (l1, h2) = new_list h1 [d];
                     (l2, h3) = new_list h2 (drop 2 (list_obj h2 message_list));
                     (l3, h4) = new_list h3 (list_obj h3 l1 @ list_obj h3 l2)
                 in (Inr l3, h4))
          else (Inr message_list, h))"

text \<open>The messages a list object refers to, and the conversations of a batch object.\<close>

definition conversation_at :: "heap \<Rightarrow> addr \<Rightarrow> message_list" where
  "conversation_at h c = map (dict_obj h) (list_obj h c)"

definition batch_at :: "heap \<Rightarrow> addr \<Rightarrow> message_list list" where
  "batch_at h b = map (conversation_at h) (list_obj h b)"

text \<open>
  The statements after the merge only read the messages (their slices and
  comprehensions build temporary lists of the same references), so they are the function
  \<open>format_merged\<close> on what the list object refers to.
\<close>

definition heap_format_message_list ::
  "string \<Rightarrow> string \<Rightarrow> heap \<Rightarrow> addr \<Rightarrow> (error + string) \<times> heap" where
  "heap_format_message_list bos eos h message_list =
     (case heap_merge_system h message_list of
        (Inl e, h') \<Rightarrow> (Inl e, h')
      | (Inr message_list', h') \<Rightarrow>
          (format_merged bos eos (conversation_at h' message_list'), h'))"

text \<open>
  The loop, over the references the batch object holds when the loop starts, and the
  function. The list \<open>input_prompts\<close> is a local object of strings; it is passed
  along as a list and not placed in the store.
\<close>

fun heap_convert_loop ::
  "string \<Rightarrow> string \<Rightarrow> heap \<Rightarrow> addr list \<Rightarrow> string list \<Rightarrow> (error + string list) \<times> heap" where
  "heap_convert_loop bos eos h [] input_prompts = (Inr input_prompts, h)"
| "heap_convert_loop bos eos h (message_list # rest) input_prompts =
     (case heap_format_message_list bos eos h message_list of
        (Inl e, h') \<Rightarrow> (Inl e, h')
      | (Inr input_prompt, h') \<Rightarrow>
          heap_convert_loop bos eos h' rest (input_prompts @ [input_prompt]))"

definition heap_convert_list_of_message_lists_to_input_prompt ::
  "heap \<Rightarrow> addr \<Rightarrow> string \<Rightarrow> string \<Rightarrow> (error + string list) \<times> heap" where
  "heap_convert_list_of_message_lists_to_input_prompt h list_of_message_lists bos eos =
     (if list_obj h list_of_message_lists = [] then (Inl IndexError, h)
      else heap_convert_loop bos eos h (list_obj h list_of_message_lists) [])"

text \<open>
  The argument exists before the call: the batch object, its message lists and their
  messages are at addresses in use.
\<close>

definition allocated_list :: "heap \<Rightarrow> addr \<Rightarrow> bool" where
  "allocated_list h c \<longleftrightarrow> c < next_addr h \<and> list_all (\<lambda>d. d < next_addr h) (list_obj h c)"

definition allocated :: "heap \<Rightarrow> addr \<Rightarrow> bool" where
  "allocated h b \<longleftrightarrow> b < next_addr h \<and> list_all (allocated_list h) (list_obj h b)"

text \<open>No object in use in \<open>h\<close> differs in \<open>h'\<close>, and no address is given back.\<close>

definition unchanged :: "heap \<Rightarrow> heap \<Rightarrow> bool" where
  "unchanged h h' \<longleftrightarrow>
     next_addr h \<le> next_addr h'
     \<and> (\<forall>a<next_addr h. list_obj h' a = list_obj h a \<and> dict_obj h' a = dict_obj h a)"

text \<open>
  A store with the batch of the notebook: the batch object at 0, its one message list at
  1, the system message at 2 and the user message at 3.
\<close>

definition example_heap :: heap where
  "example_heap =
     \<lparr>list_obj = (\<lambda>_. [])(0 := [1], 1 := [2, 3]),
      dict_obj = (\<lambda>_. \<lparr>role = User, content = []\<rparr>)
                 (2 := \<lparr>role = System, content = ''Answer only with emojis''\<rparr>,
                  3 := \<lparr>role = User, content = ''Who won?''\<rparr>),
      next_addr = 4\<rparr>"


section \<open>Properties\<close>

lemmas marker_defs = BEGIN_INST_def END_INST_def BEGIN_SYS_def END_SYS_def

lemmas formatter_defs =
  convert_list_of_message_lists_to_input_prompt_def format_message_list_def merge_system_def
  format_merged_def roles_alternate_def strip_def isspace_def

subsection \<open>The example conversation\<close>

text \<open>
  Claim C1, as the code has it. For the conversation
  \<open>[system: "S", user: "U1", assistant: "A1", user: "U2"]\<close> and any two markers
  \<open>bos\<close> and \<open>eos\<close> the formatter returns the single prompt
  \<open>bos BEGIN_INST BEGIN_SYS S END_SYS U1 END_INST A1 eos bos BEGIN_INST U2 END_INST\<close>:
  the first segment too opens with the instruction-begin marker. With the markers
  \<^verbatim>\<open><s>\<close> and \<^verbatim>\<open></s>\<close> of the LLaMA-2 tokenizer this prompt holds exactly two
  sequence-begin markers and exactly one sequence-end marker.
\<close>

theorem example_conversation_prompt:
  "convert_list_of_message_lists_to_input_prompt [example_conversation] bos eos =
     Inr [bos @ BEGIN_INST @ BEGIN_SYS @ ''S'' @ END_SYS @ ''U1'' @ END_INST @ ''A1'' @ eos
          @ bos @ BEGIN_INST @ ''U2'' @ END_INST]
   \<and> occurrences ''<s>''
        (''<s>'' @ BEGIN_INST @ BEGIN_SYS @ ''S'' @ END_SYS @ ''U1'' @ END_INST @ ''A1'' @ ''</s>''
          @ ''<s>'' @ BEGIN_INST @ ''U2'' @ END_INST) = 2
   \<and> occurrences ''</s>''
        (''<s>'' @ BEGIN_INST @ BEGIN_SYS @ ''S'' @ END_SYS @ ''U1'' @ END_INST @ ''A1'' @ ''</s>''
          @ ''<s>'' @ BEGIN_INST @ ''U2'' @ END_INST) = 1"
  by (simp add: example_conversation_def formatter_defs marker_defs)

text \<open>
  Claim C1 as stated fails: with the markers \<^verbatim>\<open><s>\<close> and \<^verbatim>\<open></s>\<close> the prompt of
  the example conversation is not the string of the claim, whose first segment has no
  instruction-begin marker.
\<close>

theorem example_conversation_counterexample:
  "convert_list_of_message_lists_to_input_prompt [example_conversation] ''<s>'' ''</s>'' \<noteq>
     Inr [''<s>'' @ BEGIN_SYS @ ''S'' @ END_SYS @ ''U1'' @ END_INST @ ''A1'' @ ''</s>''
          @ ''<s>'' @ BEGIN_INST @ ''U2'' @ END_INST]"
  by (simp add: example_conversation_def formatter_defs marker_defs)

subsection \<open>The system merge\<close>

text \<open>
  Claim C3. When the first message has role system and a second message follows, the two
  are replaced by one message with the role of the second, whose content is
  \<open>BEGIN_SYS\<close>, the system content, \<open>END_SYS\<close> and the content of the second message,
  with nothing between \<open>END_SYS\<close> and that content; the rest of the list is kept, and
  the formatter goes on with the list so obtained.
\<close>

theorem system_merge:
  "role m0 = System \<Longrightarrow>
     merge_system (m0 # m1 # rest) =
       Inr (\<lparr>role = role m1, content = BEGIN_SYS @ content m0 @ END_SYS @ content m1\<rparr> # rest)
     \<and> format_message_list bos eos (m0 # m1 # rest) =
         format_merged bos eos
           (\<lparr>role = role m1, content = BEGIN_SYS @ content m0 @ END_SYS @ content m1\<rparr> # rest)"
  by (simp add: merge_system_def format_message_list_def)

theorem system_merge_witness:
  "role \<lparr>role = System, content = ''Answer only with emojis''\<rparr> = System
   \<and> merge_system [\<lparr>role = System, content = ''Answer only with emojis''\<rparr>,
                    \<lparr>role = User, content = ''Who won?''\<rparr>] =
       Inr [\<lparr>role = User,
             content = ''<<SYS>>\<newline>Answer only with emojis\<newline><</SYS>>\<newline>\<newline>Who won?''\<rparr>]
   \<and> format_message_list ''<s>'' ''</s>''
        [\<lparr>role = System, content = ''Answer only with emojis''\<rparr>,
         \<lparr>role = User, content = ''Who won?''\<rparr>] =
       Inr ''<s>[INST] <<SYS>>\<newline>Answer only with emojis\<newline><</SYS>>\<newline>\<newline>Who won? [/INST] ''"
  using system_merge [of "\<lparr>role = System, content = ''Answer only with emojis''\<rparr>"
      "\<lparr>role = User, content = ''Who won?''\<rparr>" "[]" "''<s>''" "''</s>''"]
  by (simp add: format_merged_def roles_alternate_def strip_def isspace_def marker_defs)

subsection \<open>Slices and indices\<close>

lemma every_other_Cons: "every_other (x # xs) = x # every_other (drop 1 xs)"
  by (cases xs) simp_all

lemma list_all_every_other:
  "list_all P (every_other xs) \<longleftrightarrow> (\<forall>i<length xs. even i \<longrightarrow> P (xs ! i))"
proof (induction xs rule: every_other.induct)
  case 1
  show ?case by simp
next
  case (2 x)
  show ?case by simp
next
  case (3 x y xs)
  have "(\<forall>i<length (x # y # xs). even i \<longrightarrow> P ((x # y # xs) ! i))
        \<longleftrightarrow> P x \<and> (\<forall>i<length xs. even i \<longrightarrow> P (xs ! i))"
  proof
    assume h: "\<forall>i<length (x # y # xs). even i \<longrightarrow> P ((x # y # xs) ! i)"
    have "0 < length (x # y # xs)" "even (0::nat)" by simp_all
    with h have "P ((x # y # xs) ! 0)" by blast
    then have "P x" by simp
    moreover have "\<forall>i<length xs. even i \<longrightarrow> P (xs ! i)"
    proof (intro allI impI)
      fix i assume "i < length xs" "even i"
      then have "Suc (Suc i) < length (x # y # xs)" "even (Suc (Suc i))" by simp_all
      with h have "P ((x # y # xs) ! Suc (Suc i))" by blast
      then show "P (xs ! i)" by simp
    qed
    ultimately show "P x \<and> (\<forall>i<length xs. even i \<longrightarrow> P (xs ! i))" by simp
  next
    assume h: "P x \<and> (\<forall>i<length xs. even i \<longrightarrow> P (xs ! i))"
    show "\<forall>i<length (x # y # xs). even i \<longrightarrow> P ((x # y # xs) ! i)"
    proof (intro allI impI)
      fix i assume a: "i < length (x # y # xs)" "even i"
      show "P ((x # y # xs) ! i)"
      proof (cases i)
        case 0
        then show ?thesis using h by simp
      next
        case (Suc j)
        then obtain k where k: "j = Suc k" using a by (cases j) auto
        with Suc a h show ?thesis by simp
      qed
    qed
  qed
  moreover have "list_all P (every_other (x # y # xs)) \<longleftrightarrow> P x \<and> list_all P (every_other xs)"
    by simp
  ultimately show ?case using 3 by blast
qed

lemma odd_index_Cons:
  "(\<forall>i<length (x # ys). odd i \<longrightarrow> P ((x # ys) ! i))
   \<longleftrightarrow> (\<forall>i<length ys. even i \<longrightarrow> P (ys ! i))"
proof
  assume h: "\<forall>i<length (x # ys). odd i \<longrightarrow> P ((x # ys) ! i)"
  show "\<forall>i<length ys. even i \<longrightarrow> P (ys ! i)"
  proof (intro allI impI)
    fix i assume "i < length ys" "even i"
    then have "Suc i < length (x # ys)" "odd (Suc i)" by simp_all
    with h have "P ((x # ys) ! Suc i)" by blast
    then show "P (ys ! i)" by simp
  qed
next
  assume h: "\<forall>i<length ys. even i \<longrightarrow> P (ys ! i)"
  show "\<forall>i<length (x # ys). odd i \<longrightarrow> P ((x # ys) ! i)"
  proof (intro allI impI)
    fix i assume a: "i < length (x # ys)" "odd i"
    then have "i \<noteq> 0" by (intro notI) simp
    then obtain j where j: "i = Suc j" using not0_implies_Suc by blast
    with a have "j < length ys" "even j" by simp_all
    with h have "P (ys ! j)" by blast
    with j show "P ((x # ys) ! i)" by simp
  qed
qed

lemma list_all_every_other_drop:
  "list_all P (every_other (drop 1 xs)) \<longleftrightarrow> (\<forall>i<length xs. odd i \<longrightarrow> P (xs ! i))"
proof (cases xs)
  case Nil
  then show ?thesis by simp
next
  case (Cons x ys)
  have "list_all P (every_other (drop 1 xs)) \<longleftrightarrow> list_all P (every_other ys)"
    using Cons by simp
  also have "\<dots> \<longleftrightarrow> (\<forall>i<length ys. even i \<longrightarrow> P (ys ! i))"
    by (rule list_all_every_other)
  also have "\<dots> \<longleftrightarrow> (\<forall>i<length (x # ys). odd i \<longrightarrow> P ((x # ys) ! i))"
    by (rule odd_index_Cons [symmetric])
  finally show ?thesis unfolding Cons .
qed



lemma roles_alternate_iff:
  "roles_alternate ml \<longleftrightarrow>
     (\<forall>i<length ml. (even i \<longrightarrow> role (ml ! i) = User) \<and> (odd i \<longrightarrow> role (ml ! i) = Assistant))"
proof -
  have "roles_alternate ml \<longleftrightarrow>
          (\<forall>i<length ml. even i \<longrightarrow> role (ml ! i) = User)
          \<and> (\<forall>i<length ml. odd i \<longrightarrow> role (ml ! i) = Assistant)"
    unfolding roles_alternate_def list_all_every_other_drop
    by (simp only: list_all_every_other)
  then show ?thesis by blast
qed


lemma roles_alternate_Cons2:
  "roles_alternate (u # a # rest) \<longleftrightarrow> role u = User \<and> role a = Assistant \<and> roles_alternate rest"
proof -
  have "every_other (drop 1 (u # a # rest)) = a # every_other (drop 1 rest)"
    by (simp add: every_other_Cons)
  then show ?thesis
    unfolding roles_alternate_def by auto
qed

subsection \<open>Role ordering\<close>

text \<open>
  Unless the conversation is empty or a lone system turn, the merge statement goes
  through and binds the turns that step 1 of the contract describes.
\<close>

lemma merge_system_merged_turns:
  assumes "ml \<noteq> []" and "\<not> (\<exists>s. ml = [s] \<and> role s = System)"
  shows "merge_system ml = Inr (merged_turns ml)"
proof (cases ml)
  case Nil
  with assms show ?thesis by simp
next
  case (Cons m0 rest)
  show ?thesis
  proof (cases rest)
    case Nil
    with Cons assms have "role m0 \<noteq> System" by simp
    with Cons Nil show ?thesis by (simp add: merge_system_def)
  next
    case (Cons m1 rest')
    with \<open>ml = m0 # rest\<close> show ?thesis by (simp add: merge_system_def)
  qed
qed

text \<open>
  On every conversation but the lone system turn, a turn out of order after the merge
  (not a user turn at an even index, or not an assistant turn at an odd one) makes the
  formatter raise the \<^verbatim>\<open>ValueError\<close> of the role ordering; two user turns in a row
  are such a conversation.
\<close>

lemma role_ordering_error:
  assumes "\<not> (\<exists>s. ml = [s] \<and> role s = System)"
    and "i < length (merged_turns ml)"
    and "even i \<and> role (merged_turns ml ! i) \<noteq> User
         \<or> odd i \<and> role (merged_turns ml ! i) \<noteq> Assistant"
  shows "format_message_list bos eos ml = Inl (ValueError order_msg)"
proof -
  from assms(2) have "ml \<noteq> []" by auto
  then have m: "merge_system ml = Inr (merged_turns ml)"
    using assms(1) by (rule merge_system_merged_turns)
  from assms(2,3) have "\<not> roles_alternate (merged_turns ml)"
    unfolding roles_alternate_iff by blast
  with m show ?thesis by (simp add: format_message_list_def format_merged_def)
qed

lemma two_user_turns_error:
  "role u1 = User \<Longrightarrow> role u2 = User \<Longrightarrow>
     format_message_list bos eos [u1, u2] = Inl (ValueError order_msg)"
  by (simp add: format_message_list_def merge_system_def format_merged_def roles_alternate_def)

text \<open>
  Claim C4 at its failing input. A conversation that is a single system turn has no turn
  to merge into, so after step 1 its turns are as before and the turn at index 0 is not
  a user turn: the claim asks for the error of the role ordering. The code raises
  \<^verbatim>\<open>IndexError\<close> instead, from the subscript \<^verbatim>\<open>message_list[1]\<close> of the merge
  statement.
\<close>

theorem lone_system_turn_role_ordering:
  "merged_turns [\<lparr>role = System, content = ''S''\<rparr>] = [\<lparr>role = System, content = ''S''\<rparr>]
   \<and> even (0::nat)
   \<and> role (merged_turns [\<lparr>role = System, content = ''S''\<rparr>] ! 0) \<noteq> User
   \<and> format_message_list bos eos [\<lparr>role = System, content = ''S''\<rparr>] = Inl IndexError
   \<and> format_message_list bos eos [\<lparr>role = System, content = ''S''\<rparr>]
       \<noteq> Inl (ValueError order_msg)"
  by (simp add: format_message_list_def merge_system_def)

subsection \<open>The trailing user turn\<close>

lemma merge_system_nonempty: "merge_system ml = Inr ml' \<Longrightarrow> ml' \<noteq> []"
  by (auto simp: merge_system_def split: list.splits if_splits)

text \<open>
  Claim C5, as the code has it. The role ordering is checked first. When the system
  merge has gone through, the resulting turns pass the ordering check (user at the even
  indices, assistant at the odd ones) and the last of them is not a user turn,
  formatting raises the \<^verbatim>\<open>ValueError\<close> whose message says that the last message
  must be from the user role and that it came from the assistant role (the
  specification's missing trailing user turn). In particular a conversation of a user
  turn and an assistant turn does.
\<close>

theorem missing_trailing_user_turn:
  "(merge_system ml = Inr ml'
      \<and> (\<forall>i<length ml'. (even i \<longrightarrow> role (ml' ! i) = User)
                          \<and> (odd i \<longrightarrow> role (ml' ! i) = Assistant))
      \<and> role (last ml') \<noteq> User
     \<longrightarrow> format_message_list bos eos ml = Inl (ValueError (last_msg Assistant)))
   \<and> (role u = User \<and> role a = Assistant
     \<longrightarrow> format_message_list bos eos [u, a] = Inl (ValueError (last_msg Assistant)))"
proof (intro conjI impI)
  assume h: "merge_system ml = Inr ml'
      \<and> (\<forall>i<length ml'. (even i \<longrightarrow> role (ml' ! i) = User)
                          \<and> (odd i \<longrightarrow> role (ml' ! i) = Assistant))
      \<and> role (last ml') \<noteq> User"
  then have alt: "roles_alternate ml'" unfolding roles_alternate_iff by blast
  from h have ne: "ml' \<noteq> []" by (blast dest: merge_system_nonempty)
  then have l: "last ml' = ml' ! (length ml' - 1)" and lt: "length ml' - 1 < length ml'"
    by (simp_all add: last_conv_nth)
  from h lt have "role (ml' ! (length ml' - 1)) = User \<or> role (ml' ! (length ml' - 1)) = Assistant"
    by blast
  with h l have "role (last ml') = Assistant" by simp
  with h alt ne show "format_message_list bos eos ml = Inl (ValueError (last_msg Assistant))"
    by (simp add: format_message_list_def format_merged_def)
next
  assume "role u = User \<and> role a = Assistant"
  then show "format_message_list bos eos [u, a] = Inl (ValueError (last_msg Assistant))"
    by (simp add: format_message_list_def merge_system_def format_merged_def roles_alternate_def)
qed

theorem missing_trailing_user_turn_witness:
  "(merge_system [\<lparr>role = User, content = ''Hi''\<rparr>, \<lparr>role = Assistant, content = ''Hello''\<rparr>] =
      Inr [\<lparr>role = User, content = ''Hi''\<rparr>, \<lparr>role = Assistant, content = ''Hello''\<rparr>]
    \<and> roles_alternate [\<lparr>role = User, content = ''Hi''\<rparr>, \<lparr>role = Assistant, content = ''Hello''\<rparr>]
    \<and> role (last [\<lparr>role = User, content = ''Hi''\<rparr>, \<lparr>role = Assistant, content = ''Hello''\<rparr>])
        \<noteq> User)
   \<and> role \<lparr>role = User, content = ''Hi''\<rparr> = User
   \<and> role \<lparr>role = Assistant, content = ''Hello''\<rparr> = Assistant
   \<and> format_message_list ''<s>'' ''</s>''
        [\<lparr>role = User, content = ''Hi''\<rparr>, \<lparr>role = Assistant, content = ''Hello''\<rparr>] =
       Inl (ValueError ''Last message must be from user role. Instead, you sent from assistant role'')"
  using missing_trailing_user_turn
    [of "[\<lparr>role = User, content = ''Hi''\<rparr>, \<lparr>role = Assistant, content = ''Hello''\<rparr>]"
        "[\<lparr>role = User, content = ''Hi''\<rparr>, \<lparr>role = Assistant, content = ''Hello''\<rparr>]"
        "''<s>''" "''</s>''"
        "\<lparr>role = User, content = ''Hi''\<rparr>" "\<lparr>role = Assistant, content = ''Hello''\<rparr>"]
  by (simp add: merge_system_def roles_alternate_def last_msg_def)

text \<open>
  Claim C5 as stated fails: the conversation of one assistant turn ends on a turn that
  is not a user turn, and formatting it raises the error of the role ordering, not the
  one of the trailing user turn.
\<close>

theorem missing_trailing_user_turn_counterexample:
  "role (last [\<lparr>role = Assistant, content = ''Hello''\<rparr>]) \<noteq> User
   \<and> format_message_list ''<s>'' ''</s>'' [\<lparr>role = Assistant, content = ''Hello''\<rparr>] =
       Inl (ValueError order_msg)
   \<and> format_message_list ''<s>'' ''</s>'' [\<lparr>role = Assistant, content = ''Hello''\<rparr>] \<noteq>
       Inl (ValueError (last_msg (role (last [\<lparr>role = Assistant, content = ''Hello''\<rparr>]))))"
  by (simp add: format_message_list_def merge_system_def format_merged_def roles_alternate_def
      order_msg_def last_msg_def)

subsection \<open>The prompt of a well-formed conversation\<close>

lemma user_assistant_turns_nonempty: "user_assistant_turns ml \<Longrightarrow> ml \<noteq> []"
  by auto

lemma format_merged_user_assistant_turns:
  "user_assistant_turns ml \<Longrightarrow> format_merged bos eos ml = Inr (spec_prompt bos eos ml)"
proof (induction ml rule: user_assistant_turns.induct)
  case 1
  then show ?case by simp
next
  case (2 u)
  then show ?case by (simp add: format_merged_def roles_alternate_def)
next
  case (3 u a rest)
  then have ih: "format_merged bos eos rest = Inr (spec_prompt bos eos rest)"
    and ne: "rest \<noteq> []" and ru: "role u = User" and ra: "role a = Assistant"
    by auto
  from ih ne have alt: "roles_alternate rest" and lastu: "role (last rest) = User"
    by (auto simp: format_merged_def Let_def split: if_splits)
  from ih alt ne lastu ru ra show ?case
    by (simp add: format_merged_def roles_alternate_Cons2 every_other_Cons Let_def)
qed

lemma user_assistant_turns_content:
  "user_assistant_turns (u # rest) \<Longrightarrow> role u' = role u \<Longrightarrow> user_assistant_turns (u' # rest)"
  by (cases rest) auto

lemma well_formed_merged_turns:
  assumes "well_formed ml"
  shows "user_assistant_turns (merged_turns ml)"
proof (cases ml)
  case Nil
  with assms show ?thesis by (simp add: well_formed_def)
next
  case (Cons m rest)
  show ?thesis
  proof (cases "role m = System")
    case True
    with Cons assms have uat: "user_assistant_turns rest" by (simp add: well_formed_def)
    then obtain u rest' where rest: "rest = u # rest'" by (cases rest) auto
    have "user_assistant_turns
            (\<lparr>role = role u, content = BEGIN_SYS @ content m @ END_SYS @ content u\<rparr> # rest')"
      using uat rest by (auto intro: user_assistant_turns_content)
    with Cons rest True show ?thesis by simp
  next
    case False
    with Cons assms have uat: "user_assistant_turns ml" by (simp add: well_formed_def)
    moreover have "merged_turns ml = ml" using Cons False by (cases rest) auto
    ultimately show ?thesis by simp
  qed
qed

lemma format_message_list_merged_turns:
  assumes "well_formed ml"
  shows "format_message_list bos eos ml = format_merged bos eos (merged_turns ml)"
proof (cases ml)
  case Nil
  with assms show ?thesis by (simp add: well_formed_def)
next
  case (Cons m rest)
  show ?thesis
  proof (cases "role m = System")
    case True
    with Cons assms have "user_assistant_turns rest" by (simp add: well_formed_def)
    then obtain u rest' where "rest = u # rest'" by (cases rest) auto
    with Cons True show ?thesis
      by (simp add: format_message_list_def merge_system_def)
  next
    case False
    have "merge_system ml = Inr ml" using Cons False by (simp add: merge_system_def)
    moreover have "merged_turns ml = ml" using Cons False by (cases rest) auto
    ultimately show ?thesis by (simp add: format_message_list_def)
  qed
qed

text \<open>
  \<open>strip\<close> cuts a string into leading whitespace, the result and trailing whitespace,
  and the result, when not empty, starts and ends with a character that is no whitespace.
\<close>

lemma rev_split: "xs = rev (dropWhile P (rev xs)) @ rev (takeWhile P (rev xs))"
proof -
  have "rev xs = takeWhile P (rev xs) @ dropWhile P (rev xs)" by simp
  then have "rev (rev xs) = rev (takeWhile P (rev xs) @ dropWhile P (rev xs))"
    by (rule arg_cong)
  then show ?thesis by (simp only: rev_rev_ident rev_append)
qed

lemma strip_decomp:
  "\<exists>l r. s = l @ strip s @ r \<and> list_all isspace l \<and> list_all isspace r"
proof -
  let ?t = "dropWhile isspace s"
  have s: "s = takeWhile isspace s @ ?t" by simp
  have t: "?t = strip s @ rev (takeWhile isspace (rev ?t))"
    unfolding strip_def by (rule rev_split)
  have l: "list_all isspace (takeWhile isspace s)"
    by (simp add: list_all_iff) (meson set_takeWhileD)
  have r: "list_all isspace (rev (takeWhile isspace (rev ?t)))"
    by (simp add: list_all_iff) (meson set_takeWhileD)
  from s t have "s = takeWhile isspace s @ strip s @ rev (takeWhile isspace (rev ?t))"
    by metis
  with l r show ?thesis by blast
qed

lemma strip_ends:
  "strip s = [] \<or> (\<not> isspace (hd (strip s)) \<and> \<not> isspace (last (strip s)))"
proof (cases "strip s = []")
  case True
  then show ?thesis by simp
next
  case False
  let ?t = "dropWhile isspace s"
  let ?u = "dropWhile isspace (rev ?t)"
  have su: "strip s = rev ?u" by (simp add: strip_def)
  with False have une: "?u \<noteq> []" by simp
  then have "\<not> isspace (hd ?u)" by (rule hd_dropWhile)
  moreover have "last (strip s) = hd ?u" using su une by (simp add: last_rev)
  ultimately have la: "\<not> isspace (last (strip s))" by simp
  have tne: "?t \<noteq> []"
  proof
    assume "?t = []"
    then have "?u = []" by (simp only: rev.simps dropWhile.simps)
    with une show False by blast
  qed
  then have ht: "\<not> isspace (hd ?t)" by (rule hd_dropWhile)
  have "?t = strip s @ rev (takeWhile isspace (rev ?t))"
    unfolding strip_def by (rule rev_split)
  then have "hd ?t = hd (strip s @ rev (takeWhile isspace (rev ?t)))" by simp
  with False have "hd ?t = hd (strip s)" by simp
  with ht la show ?thesis by simp
qed

text \<open>
  Claim C6. For every well-formed conversation the formatter returns the prompt of the
  contract: for each (user, assistant) pair of the turns after the merge the segment
  \<open>bos BEGIN_INST\<close>, trimmed user content, \<open>END_INST\<close>, trimmed assistant content,
  \<open>eos\<close>, and for the trailing user turn the segment \<open>bos BEGIN_INST\<close>, trimmed
  content, \<open>END_INST\<close>, all concatenated in order with nothing in between. The user
  content of the first segment is the merged content when the conversation starts with
  a system turn. Trimmed means: the content of the turn is some whitespace, the trimmed
  content, and some whitespace again, and the trimmed content is empty or starts and
  ends with a character that is no whitespace.
\<close>

theorem well_formed_prompt:
  assumes "well_formed ml"
  shows "format_message_list bos eos ml = Inr (spec_prompt bos eos (merged_turns ml))
         \<and> (\<forall>m\<in>set (merged_turns ml).
               (\<exists>l r. content m = l @ strip (content m) @ r
                      \<and> list_all isspace l \<and> list_all isspace r)
               \<and> (strip (content m) = []
                   \<or> (\<not> isspace (hd (strip (content m)))
                       \<and> \<not> isspace (last (strip (content m))))))"
proof (intro conjI ballI)
  have "user_assistant_turns (merged_turns ml)"
    using assms by (rule well_formed_merged_turns)
  then have "format_merged bos eos (merged_turns ml) = Inr (spec_prompt bos eos (merged_turns ml))"
    by (rule format_merged_user_assistant_turns)
  with format_message_list_merged_turns [OF assms, of bos eos]
  show "format_message_list bos eos ml = Inr (spec_prompt bos eos (merged_turns ml))"
    by simp
next
  fix m
  show "\<exists>l r. content m = l @ strip (content m) @ r \<and> list_all isspace l \<and> list_all isspace r"
    by (rule strip_decomp)
next
  fix m
  show "strip (content m) = []
        \<or> (\<not> isspace (hd (strip (content m))) \<and> \<not> isspace (last (strip (content m))))"
    by (rule strip_ends)
qed

theorem well_formed_prompt_witness:
  "well_formed example_conversation
   \<and> format_message_list ''<s>'' ''</s>'' example_conversation =
       Inr ''<s>[INST] <<SYS>>\<newline>S\<newline><</SYS>>\<newline>\<newline>U1 [/INST] A1</s><s>[INST] U2 [/INST] ''
   \<and> well_formed whitespace_conversation
   \<and> format_message_list ''<s>'' ''</s>'' whitespace_conversation =
       Inr ''<s>[INST] <<SYS>>\<newline> Be brief. \<newline><</SYS>>\<newline>\<newline>  Hi there [/INST] Hello  you</s><s>[INST] Bye [/INST] ''
   \<and> \<lparr>role = Assistant, content = CHR 0x09 # ''Hello  you ''\<rparr>
       \<in> set (merged_turns whitespace_conversation)
   \<and> strip (CHR 0x09 # ''Hello  you '') = ''Hello  you''
   \<and> \<not> isspace (hd (strip (CHR 0x09 # ''Hello  you '')))
   \<and> \<not> isspace (last (strip (CHR 0x09 # ''Hello  you '')))"
proof -
  have wf: "well_formed example_conversation"
    by (simp add: well_formed_def example_conversation_def)
  have wfw: "well_formed whitespace_conversation"
    by (simp add: well_formed_def whitespace_conversation_def)
  have m: "\<lparr>role = Assistant, content = CHR 0x09 # ''Hello  you ''\<rparr>
             \<in> set (merged_turns whitespace_conversation)"
    by (simp add: whitespace_conversation_def)
  have s: "strip (CHR 0x09 # ''Hello  you '') = ''Hello  you''"
    by (simp add: strip_def isspace_def)
  have p1: "format_message_list ''<s>'' ''</s>'' example_conversation =
       Inr ''<s>[INST] <<SYS>>\<newline>S\<newline><</SYS>>\<newline>\<newline>U1 [/INST] A1</s><s>[INST] U2 [/INST] ''"
    using well_formed_prompt [OF wf, of "''<s>''" "''</s>''"]
    by (simp add: example_conversation_def strip_def isspace_def marker_defs)
  note w = well_formed_prompt [OF wfw, of "''<s>''" "''</s>''"]
  from w have p2: "format_message_list ''<s>'' ''</s>'' whitespace_conversation =
       Inr ''<s>[INST] <<SYS>>\<newline> Be brief. \<newline><</SYS>>\<newline>\<newline>  Hi there [/INST] Hello  you</s><s>[INST] Bye [/INST] ''"
    by (simp add: whitespace_conversation_def strip_def isspace_def marker_defs)
  from w m have "strip (content \<lparr>role = Assistant, content = CHR 0x09 # ''Hello  you ''\<rparr>) = []
        \<or> (\<not> isspace (hd (strip (content \<lparr>role = Assistant, content = CHR 0x09 # ''Hello  you ''\<rparr>)))
            \<and> \<not> isspace (last (strip (content \<lparr>role = Assistant, content = CHR 0x09 # ''Hello  you ''\<rparr>))))"
    by blast
  with s have e: "\<not> isspace (hd (strip (CHR 0x09 # ''Hello  you '')))
                  \<and> \<not> isspace (last (strip (CHR 0x09 # ''Hello  you '')))"
    by simp
  from wf p1 wfw p2 m s e show ?thesis by blast
qed

subsection \<open>Trimming\<close>

text \<open>Where the trimmed content of a turn stands in the prompt of the contract.\<close>

lemma spec_prompt_contains:
  "user_assistant_turns ml \<Longrightarrow> m \<in> set ml \<Longrightarrow>
     (role m = User \<longrightarrow>
        (\<exists>pre post. spec_prompt bos eos ml = pre @ BEGIN_INST @ strip (content m) @ END_INST @ post))
     \<and> (role m = Assistant \<longrightarrow>
        (\<exists>pre post. spec_prompt bos eos ml = pre @ END_INST @ strip (content m) @ eos @ post))"
proof (induction ml rule: user_assistant_turns.induct)
  case 1
  then show ?case by simp
next
  case (2 u)
  then have m: "m = u" and ru: "role m = User" by simp_all
  have "spec_prompt bos eos [u] = bos @ BEGIN_INST @ strip (content m) @ END_INST @ []"
    using m by simp
  then have "\<exists>pre post. spec_prompt bos eos [u] = pre @ BEGIN_INST @ strip (content m) @ END_INST @ post"
    by blast
  with ru show ?case by simp
next
  case (3 u a rest)
  then have ru: "role u = User" and ra: "role a = Assistant" and uat: "user_assistant_turns rest"
    by simp_all
  let ?seg = "bos @ BEGIN_INST @ strip (content u) @ END_INST @ strip (content a) @ eos"
  have sp: "spec_prompt bos eos (u # a # rest) = ?seg @ spec_prompt bos eos rest" by simp
  from 3 have "m = u \<or> m = a \<or> m \<in> set rest" by auto
  then show ?case
  proof (elim disjE)
    assume m: "m = u"
    have "spec_prompt bos eos (u # a # rest) =
            bos @ BEGIN_INST @ strip (content m) @ END_INST
            @ (strip (content a) @ eos @ spec_prompt bos eos rest)"
      using m by simp
    then have "\<exists>pre post. spec_prompt bos eos (u # a # rest) =
                 pre @ BEGIN_INST @ strip (content m) @ END_INST @ post" by blast
    with m ru show ?thesis by simp
  next
    assume m: "m = a"
    have "spec_prompt bos eos (u # a # rest) =
            (bos @ BEGIN_INST @ strip (content u)) @ END_INST @ strip (content m) @ eos
            @ spec_prompt bos eos rest"
      using m by simp
    then have "\<exists>pre post. spec_prompt bos eos (u # a # rest) =
                 pre @ END_INST @ strip (content m) @ eos @ post" by blast
    with m ra show ?thesis by simp
  next
    assume m: "m \<in> set rest"
    with 3 uat have ih:
      "(role m = User \<longrightarrow>
          (\<exists>pre post. spec_prompt bos eos rest = pre @ BEGIN_INST @ strip (content m) @ END_INST @ post))
       \<and> (role m = Assistant \<longrightarrow>
          (\<exists>pre post. spec_prompt bos eos rest = pre @ END_INST @ strip (content m) @ eos @ post))"
      by blast
    show ?thesis
    proof (intro conjI impI)
      assume "role m = User"
      with ih obtain pre post where
        "spec_prompt bos eos rest = pre @ BEGIN_INST @ strip (content m) @ END_INST @ post"
        by blast
      then have "spec_prompt bos eos (u # a # rest) =
                   (?seg @ pre) @ BEGIN_INST @ strip (content m) @ END_INST @ post"
        by simp
      then show "\<exists>pre post. spec_prompt bos eos (u # a # rest) =
                   pre @ BEGIN_INST @ strip (content m) @ END_INST @ post" by blast
    next
      assume "role m = Assistant"
      with ih obtain pre post where
        "spec_prompt bos eos rest = pre @ END_INST @ strip (content m) @ eos @ post"
        by blast
      then have "spec_prompt bos eos (u # a # rest) =
                   (?seg @ pre) @ END_INST @ strip (content m) @ eos @ post"
        by simp
      then show "\<exists>pre post. spec_prompt bos eos (u # a # rest) =
                   pre @ END_INST @ strip (content m) @ eos @ post" by blast
    qed
  qed
qed

text \<open>
  Claim C7, as the code has it. Trimming comes after the merge. For every turn of a
  well-formed conversation after the system merge (a leading system turn and the turn
  after it count as the one merged turn), the prompt holds the content of the turn with
  its leading and trailing whitespace dropped and everything between kept as it is:
  between \<open>BEGIN_INST\<close> and \<open>END_INST\<close> for a user turn, between \<open>END_INST\<close> and
  \<open>eos\<close> for an assistant turn. For the merged turn the content trimmed is the merged
  one, system block and user content together.
\<close>

theorem trimmed_content_in_prompt:
  assumes "well_formed ml" and "m \<in> set (merged_turns ml)"
  shows "\<exists>p. format_message_list bos eos ml = Inr p
           \<and> (role m = User \<longrightarrow>
                (\<exists>pre post. p = pre @ BEGIN_INST @ strip (content m) @ END_INST @ post))
           \<and> (role m = Assistant \<longrightarrow>
                (\<exists>pre post. p = pre @ END_INST @ strip (content m) @ eos @ post))
           \<and> (\<exists>l r. content m = l @ strip (content m) @ r
                \<and> list_all isspace l \<and> list_all isspace r)
           \<and> (strip (content m) = []
                \<or> (\<not> isspace (hd (strip (content m)))
                    \<and> \<not> isspace (last (strip (content m)))))"
proof -
  have uat: "user_assistant_turns (merged_turns ml)"
    using assms(1) by (rule well_formed_merged_turns)
  then have "format_merged bos eos (merged_turns ml) = Inr (spec_prompt bos eos (merged_turns ml))"
    by (rule format_merged_user_assistant_turns)
  with format_message_list_merged_turns [OF assms(1), of bos eos]
  have p: "format_message_list bos eos ml = Inr (spec_prompt bos eos (merged_turns ml))"
    by simp
  note c = spec_prompt_contains [OF uat assms(2), of bos eos]
  from p c strip_decomp [of "content m"] strip_ends [of "content m"] show ?thesis
    by blast
qed

theorem trimmed_content_in_prompt_witness:
  "well_formed padded_conversation
   \<and> \<lparr>role = User, content = BEGIN_SYS @ '' S '' @ END_SYS @ '' U ''\<rparr>
       \<in> set (merged_turns padded_conversation)
   \<and> strip (BEGIN_SYS @ '' S '' @ END_SYS @ '' U '') = BEGIN_SYS @ '' S '' @ END_SYS @ '' U''
   \<and> (\<exists>pre post. format_message_list ''<s>'' ''</s>'' padded_conversation =
         Inr (pre @ BEGIN_INST @ BEGIN_SYS @ '' S '' @ END_SYS @ '' U'' @ END_INST @ post))"
proof -
  have wf: "well_formed padded_conversation"
    by (simp add: well_formed_def padded_conversation_def)
  have m: "\<lparr>role = User, content = BEGIN_SYS @ '' S '' @ END_SYS @ '' U ''\<rparr>
             \<in> set (merged_turns padded_conversation)"
    by (simp add: padded_conversation_def)
  have s: "strip (BEGIN_SYS @ '' S '' @ END_SYS @ '' U '') = BEGIN_SYS @ '' S '' @ END_SYS @ '' U''"
    by (simp add: strip_def isspace_def marker_defs)
  from trimmed_content_in_prompt [OF wf m, of "''<s>''" "''</s>''"]
  obtain p pre post where "format_message_list ''<s>'' ''</s>'' padded_conversation = Inr p"
    "p = pre @ BEGIN_INST @ strip (BEGIN_SYS @ '' S '' @ END_SYS @ '' U '') @ END_INST @ post"
    by auto
  with s have "\<exists>pre post. format_message_list ''<s>'' ''</s>'' padded_conversation =
         Inr (pre @ BEGIN_INST @ BEGIN_SYS @ '' S '' @ END_SYS @ '' U'' @ END_INST @ post)"
    by (metis append_assoc)
  with wf m s show ?thesis by blast
qed

text \<open>
  Claim C7 as stated fails: for a system turn with content \<open>" S "\<close> followed by a user
  turn with content \<open>" U "\<close>, the whitespace around \<open>S\<close> and the space before \<open>U\<close>
  stay in the prompt.
\<close>

theorem trimmed_content_counterexample:
  "format_message_list ''<s>'' ''</s>'' padded_conversation =
     Inr ''<s>[INST] <<SYS>>\<newline> S \<newline><</SYS>>\<newline>\<newline> U [/INST] ''
   \<and> format_message_list ''<s>'' ''</s>'' padded_conversation \<noteq>
     Inr ''<s>[INST] <<SYS>>\<newline>S\<newline><</SYS>>\<newline>\<newline>U [/INST] ''"
  by (simp add: padded_conversation_def format_message_list_def merge_system_def
      format_merged_def roles_alternate_def strip_def isspace_def marker_defs)

subsection \<open>Batches\<close>

lemma convert_loop_Inr:
  "convert_loop bos eos mls acc = Inr prompts \<longleftrightarrow>
     (\<exists>qs. prompts = acc @ qs \<and> map (format_message_list bos eos) mls = map Inr qs)"
proof (induction mls arbitrary: acc)
  case Nil
  show ?case by auto
next
  case (Cons ml mls)
  show ?case
  proof (cases "format_message_list bos eos ml")
    case (Inl e)
    then show ?thesis by auto
  next
    case (Inr p)
    have "convert_loop bos eos (ml # mls) acc = Inr prompts
          \<longleftrightarrow> (\<exists>qs. prompts = (acc @ [p]) @ qs \<and> map (format_message_list bos eos) mls = map Inr qs)"
      using Inr Cons.IH [of "acc @ [p]"] by simp
    also have "\<dots> \<longleftrightarrow> (\<exists>qs. prompts = acc @ qs
                            \<and> map (format_message_list bos eos) (ml # mls) = map Inr qs)"
    proof
      assume "\<exists>qs. prompts = (acc @ [p]) @ qs \<and> map (format_message_list bos eos) mls = map Inr qs"
      then obtain qs where "prompts = (acc @ [p]) @ qs"
        "map (format_message_list bos eos) mls = map Inr qs" by blast
      then have "prompts = acc @ (p # qs)
                 \<and> map (format_message_list bos eos) (ml # mls) = map Inr (p # qs)"
        using Inr by simp
      then show "\<exists>qs. prompts = acc @ qs
                  \<and> map (format_message_list bos eos) (ml # mls) = map Inr qs" by blast
    next
      assume "\<exists>qs. prompts = acc @ qs
                  \<and> map (format_message_list bos eos) (ml # mls) = map Inr qs"
      then obtain qs where q: "prompts = acc @ qs"
        "map (format_message_list bos eos) (ml # mls) = map Inr qs" by blast
      then obtain q qs' where qs: "qs = q # qs'" by (cases qs) auto
      with q Inr have "q = p" "map (format_message_list bos eos) mls = map Inr qs'" by simp_all
      with q qs have "prompts = (acc @ [p]) @ qs'
                      \<and> map (format_message_list bos eos) mls = map Inr qs'" by simp
      then show "\<exists>qs. prompts = (acc @ [p]) @ qs
                   \<and> map (format_message_list bos eos) mls = map Inr qs" by blast
    qed
    finally show ?thesis .
  qed
qed

lemma convert_loop_first_error:
  "\<forall>ml\<in>set pre. \<not> isl (format_message_list bos eos ml) \<Longrightarrow>
   format_message_list bos eos bad = Inl e \<Longrightarrow>
   convert_loop bos eos (pre @ bad # post) acc = Inl e"
proof (induction pre arbitrary: acc)
  case Nil
  then show ?case by simp
next
  case (Cons ml pre)
  then obtain p where "format_message_list bos eos ml = Inr p"
    by (cases "format_message_list bos eos ml") auto
  with Cons show ?case by simp
qed

lemma good_conversation_prompt:
  "format_message_list ''<s>'' ''</s>'' good_conversation = Inr ''<s>[INST] Hi [/INST] ''"
  by (simp add: good_conversation_def format_message_list_def merge_system_def
      format_merged_def roles_alternate_def strip_def isspace_def marker_defs)

lemma bad_conversation_error:
  "format_message_list ''<s>'' ''</s>'' bad_conversation = Inl (ValueError order_msg)"
  by (simp add: bad_conversation_def format_message_list_def merge_system_def
      format_merged_def roles_alternate_def)

text \<open>
  Claim C2, as the code has it. The loop has no handler: when the conversations before
  a malformed one format, the call raises the error that formatting the malformed
  conversation alone gives, and returns no prompt for any conversation of the batch;
  the conversations after it are not looked at. When no conversation fails, the call on
  a non-empty batch returns exactly the prompts that formatting each conversation alone
  gives, in the order of the input, and it returns in no other case.
\<close>

theorem batch_stops_at_first_malformed:
  "((\<forall>ml\<in>set pre. \<not> isl (format_message_list bos eos ml))
      \<and> format_message_list bos eos bad = Inl e
     \<longrightarrow> convert_list_of_message_lists_to_input_prompt (pre @ bad # post) bos eos = Inl e)
   \<and> (batch \<noteq> []
     \<longrightarrow> (convert_list_of_message_lists_to_input_prompt batch bos eos = Inr prompts
          \<longleftrightarrow> map (format_message_list bos eos) batch = map Inr prompts))"
proof (intro conjI impI)
  assume "(\<forall>ml\<in>set pre. \<not> isl (format_message_list bos eos ml))
      \<and> format_message_list bos eos bad = Inl e"
  then have "convert_loop bos eos (pre @ bad # post) [] = Inl e"
    by (blast intro: convert_loop_first_error)
  then show "convert_list_of_message_lists_to_input_prompt (pre @ bad # post) bos eos = Inl e"
    by (simp add: convert_list_of_message_lists_to_input_prompt_def)
next
  assume "batch \<noteq> []"
  then show "convert_list_of_message_lists_to_input_prompt batch bos eos = Inr prompts
          \<longleftrightarrow> map (format_message_list bos eos) batch = map Inr prompts"
    by (simp add: convert_list_of_message_lists_to_input_prompt_def convert_loop_Inr)
qed

theorem batch_stops_at_first_malformed_witness:
  "\<not> isl (format_message_list ''<s>'' ''</s>'' good_conversation)
   \<and> format_message_list ''<s>'' ''</s>'' bad_conversation = Inl (ValueError order_msg)
   \<and> convert_list_of_message_lists_to_input_prompt
        ([good_conversation] @ bad_conversation # [good_conversation]) ''<s>'' ''</s>'' =
       Inl (ValueError order_msg)
   \<and> [good_conversation, good_conversation] \<noteq> []
   \<and> map (format_message_list ''<s>'' ''</s>'') [good_conversation, good_conversation] =
       map Inr [''<s>[INST] Hi [/INST] '', ''<s>[INST] Hi [/INST] '']
   \<and> convert_list_of_message_lists_to_input_prompt
        [good_conversation, good_conversation] ''<s>'' ''</s>'' =
       Inr [''<s>[INST] Hi [/INST] '', ''<s>[INST] Hi [/INST] '']"
  using batch_stops_at_first_malformed
    [of "[good_conversation]" "''<s>''" "''</s>''" bad_conversation "ValueError order_msg"
        "[good_conversation]" "[good_conversation, good_conversation]"
        "[''<s>[INST] Hi [/INST] '', ''<s>[INST] Hi [/INST] '']"]
  by (simp add: good_conversation_prompt bad_conversation_error)

text \<open>
  Claim C2 as stated fails: a conversation that formats alone gets no prompt when a
  malformed conversation stands after it or before it in the batch; the call ends with
  the exception only.
\<close>

theorem batch_independent_counterexample:
  "format_message_list ''<s>'' ''</s>'' good_conversation = Inr ''<s>[INST] Hi [/INST] ''
   \<and> convert_list_of_message_lists_to_input_prompt
        [good_conversation, bad_conversation] ''<s>'' ''</s>'' = Inl (ValueError order_msg)
   \<and> convert_list_of_message_lists_to_input_prompt
        [bad_conversation, good_conversation] ''<s>'' ''</s>'' = Inl (ValueError order_msg)"
  by (simp add: convert_list_of_message_lists_to_input_prompt_def
      good_conversation_prompt bad_conversation_error)

subsection \<open>The errors of the formatter\<close>

text \<open>
  What formatting one conversation can raise: \<^verbatim>\<open>IndexError\<close> on the empty conversation
  and on a lone system turn, and the two \<^verbatim>\<open>ValueError\<close>s otherwise.
\<close>

lemma format_message_list_errors:
  assumes "format_message_list bos eos ml = Inl e"
  shows "e = IndexError \<and> (ml = [] \<or> (\<exists>s. ml = [s] \<and> role s = System))
         \<or> e = ValueError order_msg
         \<or> e = ValueError (last_msg Assistant)"
proof (cases "merge_system ml")
  case (Inl e')
  with assms have "e = e'" by (simp add: format_message_list_def)
  with Inl show ?thesis
    by (auto simp: merge_system_def split: list.splits if_splits)
next
  case (Inr ml')
  then have ne: "ml' \<noteq> []" by (rule merge_system_nonempty)
  from Inr assms have fm: "format_merged bos eos ml' = Inl e"
    by (simp add: format_message_list_def)
  show ?thesis
  proof (cases "roles_alternate ml'")
    case False
    with fm show ?thesis by (simp add: format_merged_def)
  next
    case True
    from ne have l: "last ml' = ml' ! (length ml' - 1)" and lt: "length ml' - 1 < length ml'"
      by (simp_all add: last_conv_nth)
    from True lt have "role (ml' ! (length ml' - 1)) = User \<or> role (ml' ! (length ml' - 1)) = Assistant"
      unfolding roles_alternate_iff by blast
    with l have "role (last ml') = User \<or> role (last ml') = Assistant" by simp
    with fm True ne show ?thesis
      by (auto simp: format_merged_def Let_def split: if_splits)
  qed
qed

text \<open>
  Claim C8 at its failing inputs: a batch whose conversation is a single system turn,
  and a batch whose conversation is empty, make the function raise \<^verbatim>\<open>IndexError\<close>,
  which is neither of the two \<^verbatim>\<open>ValueError\<close>s.
\<close>

theorem lone_system_turn_IndexError:
  "convert_list_of_message_lists_to_input_prompt [[\<lparr>role = System, content = ''S''\<rparr>]] bos eos =
     Inl IndexError
   \<and> convert_list_of_message_lists_to_input_prompt [[]] bos eos = Inl IndexError
   \<and> IndexError \<noteq> ValueError order_msg
   \<and> IndexError \<noteq> ValueError (last_msg r)"
  by (simp add: convert_list_of_message_lists_to_input_prompt_def format_message_list_def
      merge_system_def)

subsection \<open>The input is left as it was\<close>

lemma unchanged_refl: "unchanged h h"
  by (simp add: unchanged_def)

lemma unchanged_trans: "unchanged h h' \<Longrightarrow> unchanged h' h'' \<Longrightarrow> unchanged h h''"
  unfolding unchanged_def by (metis le_trans less_le_trans)

lemma unchanged_new_dict: "unchanged h (snd (new_dict h m))"
  by (simp add: unchanged_def new_dict_def)

lemma unchanged_new_list: "unchanged h (snd (new_list h xs))"
  by (simp add: unchanged_def new_list_def)

lemma unchanged_heap_merge_system: "unchanged h (snd (heap_merge_system h a))"
proof (cases "list_obj h a")
  case Nil
  then show ?thesis by (simp add: heap_merge_system_def unchanged_refl)
next
  case (Cons d0 rest)
  show ?thesis
  proof (cases "role (dict_obj h d0) = System")
    case False
    with Cons show ?thesis by (simp add: heap_merge_system_def unchanged_refl)
  next
    case True
    show ?thesis
    proof (cases rest)
      case Nil
      with Cons True show ?thesis by (simp add: heap_merge_system_def unchanged_refl)
    next
      case (Cons d1 rest')
      with \<open>list_obj h a = d0 # rest\<close> True show ?thesis
        by (simp add: heap_merge_system_def unchanged_def new_dict_def new_list_def Let_def)
    qed
  qed
qed

lemma unchanged_heap_format_message_list:
  "unchanged h (snd (heap_format_message_list bos eos h a))"
  using unchanged_heap_merge_system [of h a]
  by (auto simp: heap_format_message_list_def split: prod.splits sum.splits)

lemma unchanged_heap_convert_loop:
  "unchanged h (snd (heap_convert_loop bos eos h cs prompts))"
proof (induction cs arbitrary: h prompts)
  case Nil
  show ?case by (simp add: unchanged_refl)
next
  case (Cons c cs)
  obtain r h' where step: "heap_format_message_list bos eos h c = (r, h')"
    by (cases "heap_format_message_list bos eos h c")
  with unchanged_heap_format_message_list [of h bos eos c] have u: "unchanged h h'" by simp
  show ?case
  proof (cases r)
    case (Inl e)
    with step u show ?thesis by simp
  next
    case (Inr p)
    with step have "snd (heap_convert_loop bos eos h (c # cs) prompts)
                    = snd (heap_convert_loop bos eos h' cs (prompts @ [p]))" by simp
    with u Cons.IH [of h' "prompts @ [p]"] show ?thesis
      by (auto intro: unchanged_trans)
  qed
qed

lemma unchanged_heap_convert:
  "unchanged h (snd (heap_convert_list_of_message_lists_to_input_prompt h b bos eos))"
  by (simp add: heap_convert_list_of_message_lists_to_input_prompt_def unchanged_refl
      unchanged_heap_convert_loop)

lemma unchanged_allocated_list:
  "unchanged h h' \<Longrightarrow> allocated_list h c \<Longrightarrow>
     allocated_list h' c \<and> conversation_at h' c = conversation_at h c"
  unfolding unchanged_def allocated_list_def conversation_at_def list_all_iff
  by (auto intro: less_le_trans)

lemma heap_merge_system_refines:
  assumes "allocated_list h a"
  shows "(case heap_merge_system h a of
            (Inl e, h') \<Rightarrow> merge_system (conversation_at h a) = Inl e
          | (Inr a', h') \<Rightarrow> merge_system (conversation_at h a) = Inr (conversation_at h' a'))"
proof (cases "list_obj h a")
  case Nil
  then show ?thesis by (simp add: heap_merge_system_def merge_system_def conversation_at_def)
next
  case (Cons d0 rest)
  show ?thesis
  proof (cases "role (dict_obj h d0) = System")
    case False
    with Cons show ?thesis
      by (simp add: heap_merge_system_def merge_system_def conversation_at_def)
  next
    case True
    show ?thesis
    proof (cases rest)
      case Nil
      with Cons True show ?thesis
        by (simp add: heap_merge_system_def merge_system_def conversation_at_def)
    next
      case (Cons d1 rest')
      note l = \<open>list_obj h a = d0 # rest\<close>
      from assms l Cons have a: "a < next_addr h" and r: "\<forall>d\<in>set rest'. d < next_addr h"
        by (simp_all add: allocated_list_def list_all_iff)
      have "map ((dict_obj h)(next_addr h := m)) rest' = map (dict_obj h) rest'" for m
        using r by (intro map_cong) auto
      with l Cons True a show ?thesis
        by (simp add: heap_merge_system_def merge_system_def conversation_at_def
            new_dict_def new_list_def Let_def)
    qed
  qed
qed

lemma heap_format_message_list_refines:
  assumes "allocated_list h a"
  shows "fst (heap_format_message_list bos eos h a) = format_message_list bos eos (conversation_at h a)"
  using heap_merge_system_refines [OF assms]
  by (auto simp: heap_format_message_list_def format_message_list_def
      split: prod.splits sum.splits)

lemma heap_convert_loop_refines:
  "list_all (allocated_list h) cs \<Longrightarrow>
     fst (heap_convert_loop bos eos h cs prompts)
       = convert_loop bos eos (map (conversation_at h) cs) prompts"
proof (induction cs arbitrary: h prompts)
  case Nil
  show ?case by simp
next
  case (Cons c cs)
  then have c: "allocated_list h c" and cs: "list_all (allocated_list h) cs" by simp_all
  obtain r h' where step: "heap_format_message_list bos eos h c = (r, h')"
    by (cases "heap_format_message_list bos eos h c")
  with unchanged_heap_format_message_list [of h bos eos c] have u: "unchanged h h'" by simp
  from step heap_format_message_list_refines [OF c, of bos eos]
  have r: "format_message_list bos eos (conversation_at h c) = r" by simp
  show ?case
  proof (cases r)
    case (Inl e)
    with step r show ?thesis by simp
  next
    case (Inr p)
    from u cs have cs': "list_all (allocated_list h') cs"
      and same: "map (conversation_at h') cs = map (conversation_at h) cs"
      by (auto simp: list_all_iff dest: unchanged_allocated_list)
    from Cons.IH [OF cs', of "prompts @ [p]"] same
    have "fst (heap_convert_loop bos eos h' cs (prompts @ [p]))
            = convert_loop bos eos (map (conversation_at h) cs) (prompts @ [p])" by simp
    with step r Inr show ?thesis by simp
  qed
qed

lemma heap_convert_refines:
  assumes "allocated h b"
  shows "fst (heap_convert_list_of_message_lists_to_input_prompt h b bos eos)
           = convert_list_of_message_lists_to_input_prompt (batch_at h b) bos eos"
proof -
  from assms have "list_all (allocated_list h) (list_obj h b)" by (simp add: allocated_def)
  then show ?thesis
    by (simp add: heap_convert_list_of_message_lists_to_input_prompt_def
        convert_list_of_message_lists_to_input_prompt_def batch_at_def heap_convert_loop_refines)
qed

text \<open>
  Claim C9. The function never changes its input: whether it returns or raises, the
  batch object holds the same message lists after the call, every message list of the
  batch holds the same messages, and every message has its role and content as before;
  the objects the merge creates are new ones. What the call returns or raises is what
  the formatter as a function of the batch's conversations gives.
\<close>

theorem formatter_does_not_mutate_input:
  assumes "allocated h b"
  shows "list_obj (snd (heap_convert_list_of_message_lists_to_input_prompt h b bos eos)) b
           = list_obj h b
         \<and> (\<forall>c\<in>set (list_obj h b).
               list_obj (snd (heap_convert_list_of_message_lists_to_input_prompt h b bos eos)) c
                 = list_obj h c
               \<and> (\<forall>d\<in>set (list_obj h c).
                     dict_obj (snd (heap_convert_list_of_message_lists_to_input_prompt h b bos eos)) d
                       = dict_obj h d))
         \<and> batch_at (snd (heap_convert_list_of_message_lists_to_input_prompt h b bos eos)) b
             = batch_at h b
         \<and> fst (heap_convert_list_of_message_lists_to_input_prompt h b bos eos)
             = convert_list_of_message_lists_to_input_prompt (batch_at h b) bos eos"
proof -
  let ?h' = "snd (heap_convert_list_of_message_lists_to_input_prompt h b bos eos)"
  have un: "unchanged h ?h'" by (rule unchanged_heap_convert)
  then have u: "\<forall>a<next_addr h. list_obj ?h' a = list_obj h a \<and> dict_obj ?h' a = dict_obj h a"
    by (simp add: unchanged_def)
  from assms have b: "b < next_addr h"
    and al: "\<forall>c\<in>set (list_obj h b). allocated_list h c"
    by (simp_all add: allocated_def list_all_iff)
  from al have cs: "\<forall>c\<in>set (list_obj h b). c < next_addr h \<and> (\<forall>d\<in>set (list_obj h c). d < next_addr h)"
    by (simp add: allocated_list_def list_all_iff)
  from u b have lb: "list_obj ?h' b = list_obj h b" by blast
  have "map (conversation_at ?h') (list_obj h b) = map (conversation_at h) (list_obj h b)"
    using un al by (intro map_cong) (auto dest: unchanged_allocated_list)
  with lb have ba: "batch_at ?h' b = batch_at h b" by (simp add: batch_at_def)
  from lb u cs have
    "list_obj ?h' b = list_obj h b
     \<and> (\<forall>c\<in>set (list_obj h b). list_obj ?h' c = list_obj h c
          \<and> (\<forall>d\<in>set (list_obj h c). dict_obj ?h' d = dict_obj h d))"
    by blast
  with ba heap_convert_refines [OF assms, of bos eos] show ?thesis by blast
qed

lemma example_heap_run:
  "heap_convert_list_of_message_lists_to_input_prompt example_heap 0 ''<s>'' ''</s>'' =
     (Inr [''<s>[INST] <<SYS>>\<newline>Answer only with emojis\<newline><</SYS>>\<newline>\<newline>Who won? [/INST] ''],
      \<lparr>list_obj = (\<lambda>_. [])(0 := [1], 1 := [2, 3], 5 := [4], 6 := [], 7 := [4]),
       dict_obj = (\<lambda>_. \<lparr>role = User, content = []\<rparr>)
                 (2 := \<lparr>role = System, content = ''Answer only with emojis''\<rparr>,
                  3 := \<lparr>role = User, content = ''Who won?''\<rparr>,
                  4 := \<lparr>role = User,
                        content = ''<<SYS>>\<newline>Answer only with emojis\<newline><</SYS>>\<newline>\<newline>Who won?''\<rparr>),
       next_addr = 8\<rparr>)"
  by (simp add: example_heap_def heap_convert_list_of_message_lists_to_input_prompt_def
      heap_format_message_list_def heap_merge_system_def new_dict_def new_list_def
      conversation_at_def format_merged_def roles_alternate_def strip_def isspace_def
      marker_defs Let_def)

theorem formatter_does_not_mutate_input_witness:
  "allocated example_heap 0
   \<and> next_addr (snd (heap_convert_list_of_message_lists_to_input_prompt
                       example_heap 0 ''<s>'' ''</s>'')) = 8
   \<and> batch_at (snd (heap_convert_list_of_message_lists_to_input_prompt
                      example_heap 0 ''<s>'' ''</s>'')) 0
       = [[\<lparr>role = System, content = ''Answer only with emojis''\<rparr>,
           \<lparr>role = User, content = ''Who won?''\<rparr>]]
   \<and> batch_at example_heap 0
       = [[\<lparr>role = System, content = ''Answer only with emojis''\<rparr>,
           \<lparr>role = User, content = ''Who won?''\<rparr>]]
   \<and> fst (heap_convert_list_of_message_lists_to_input_prompt example_heap 0 ''<s>'' ''</s>'')
       = convert_list_of_message_lists_to_input_prompt
           [[\<lparr>role = System, content = ''Answer only with emojis''\<rparr>,
             \<lparr>role = User, content = ''Who won?''\<rparr>]] ''<s>'' ''</s>''"
proof -
  have al: "allocated example_heap 0"
    by (simp add: allocated_def allocated_list_def example_heap_def)
  have ba: "batch_at example_heap 0
       = [[\<lparr>role = System, content = ''Answer only with emojis''\<rparr>,
           \<lparr>role = User, content = ''Who won?''\<rparr>]]"
    by (simp add: batch_at_def conversation_at_def example_heap_def)
  have nx: "next_addr (snd (heap_convert_list_of_message_lists_to_input_prompt
                       example_heap 0 ''<s>'' ''</s>'')) = 8"
    by (simp add: example_heap_run)
  from formatter_does_not_mutate_input [OF al, of "''<s>''" "''</s>''"] al ba nx
  show ?thesis by simp
qed

subsection \<open>The empty batch\<close>

text \<open>
  Claim C10. On an empty batch the function raises \<^verbatim>\<open>IndexError\<close>, from the subscript
  \<^verbatim>\<open>list_of_message_lists[0]\<close> of its second print, and returns no list of prompts.
\<close>

theorem empty_batch_IndexError:
  "convert_list_of_message_lists_to_input_prompt [] bos eos = Inl IndexError"
  by (simp add: convert_list_of_message_lists_to_input_prompt_def)

end
